theory Spec2Isabelle
  imports Main "HOL-Library.Sublist"
begin

section \<open>Python strings\<close>

text \<open>
  A Python \<^verbatim>\<open>str\<close> is modelled as a \<^typ>\<open>string\<close> whose characters are the code
  points U+0000 to U+00FF. On this range \<^verbatim>\<open>str.lower\<close> maps A-Z and the
  accented capitals U+00C0-U+00DE (without the multiplication sign U+00D7) to the letter
  32 positions higher and leaves every other character alone, and \<^verbatim>\<open>str.isspace\<close> holds
  for the twelve code points listed in \<open>isspace\<close>.
\<close>

definition lower_char :: "char \<Rightarrow> char" where
  "lower_char c =
     (let n = (of_char c :: nat)
      in if (65 \<le> n \<and> n \<le> 90) \<or> (192 \<le> n \<and> n \<le> 222 \<and> n \<noteq> 215)
         then char_of (n + 32) else c)"

definition lower :: "string \<Rightarrow> string" where
  "lower s = map lower_char s"

definition isspace :: "char \<Rightarrow> bool" where
  "isspace c = ((of_char c :: nat) \<in> {9, 10, 11, 12, 13, 28, 29, 30, 31, 32, 133, 160})"

text \<open>\<^verbatim>\<open>s.strip()\<close>: leading and trailing whitespace removed.\<close>

definition strip :: "string \<Rightarrow> string" where
  "strip s = rev (dropWhile isspace (rev (dropWhile isspace s)))"

text \<open>
  The index of the first occurrence of \<open>sub\<close> in a string, scanning from the left.
  \<^verbatim>\<open>s.find(sub)\<close> is this index, or -1 when there is none; \<^verbatim>\<open>sub in s\<close> asks
  whether there is one.
\<close>

fun find_idx :: "string \<Rightarrow> string \<Rightarrow> nat option" where
  "find_idx sub [] = (if sub = [] then Some 0 else None)"
| "find_idx sub (c # cs) =
     (if prefix sub (c # cs) then Some 0 else map_option Suc (find_idx sub cs))"

definition find :: "string \<Rightarrow> string \<Rightarrow> int" where
  "find s sub = (case find_idx sub s of None \<Rightarrow> - 1 | Some i \<Rightarrow> int i)"

definition contains :: "string \<Rightarrow> string \<Rightarrow> bool" where
  "contains sub s = (find_idx sub s \<noteq> None)"

text \<open>
  \<^verbatim>\<open>s[start:]\<close>: a negative \<open>start\<close> counts from the end of the string, and a start
  before the beginning is the beginning.
\<close>

definition slice_from :: "string \<Rightarrow> int \<Rightarrow> string" where
  "slice_from s start =
     (if start < 0 then drop (nat (max 0 (int (length s) + start))) s
      else drop (nat start) s)"

text \<open>
  \<^verbatim>\<open>s.replace(old, new)\<close>: the occurrences of \<open>old\<close> are found from the left, each
  search starting behind the previous occurrence, and each is replaced by \<open>new\<close>. With an
  empty \<open>old\<close> Python puts \<open>new\<close> before every character and at the end.
\<close>

function replace :: "string \<Rightarrow> string \<Rightarrow> string \<Rightarrow> string" where
  "replace s old new =
     (if old = [] then new @ concat (map (\<lambda>c. c # new) s)
      else case find_idx old s of
             None \<Rightarrow> s
           | Some i \<Rightarrow> take i s @ new @ replace (drop (i + length old) s) old new)"
  by pat_completeness auto
termination
proof (relation "measure (\<lambda>(s, old, new). length s)")
  show "wf (measure (\<lambda>(s, old, new). length s))" by simp
next
  fix s old :: string and new :: string and i
  assume old: "old \<noteq> []" and found: "find_idx old s = Some i"
  have "find_idx old t = Some j \<Longrightarrow> j + length old \<le> length t" for t j
    by (induction t arbitrary: j) (auto dest: prefix_length_le split: if_splits)
  from this [OF found] old
  show "((drop (i + length old) s, old, new), (s, old, new)) \<in> measure (\<lambda>(s, old, new). length s)"
    by (cases old) auto
qed

declare replace.simps [simp del]

text \<open>
  \<^verbatim>\<open>s.split(sep)\<close> cuts at the same occurrences, and raises \<^verbatim>\<open>ValueError\<close> on an
  empty separator. \<open>split_pieces\<close> is the cutting, for a separator that is not empty.
\<close>

function split_pieces :: "string \<Rightarrow> string \<Rightarrow> string list" where
  "split_pieces sep s =
     (if sep = [] then [s]
      else case find_idx sep s of
             None \<Rightarrow> [s]
           | Some i \<Rightarrow> take i s # split_pieces sep (drop (i + length sep) s))"
  by pat_completeness auto
termination
proof (relation "measure (\<lambda>(sep, s). length s)")
  show "wf (measure (\<lambda>(sep, s). length s))" by simp
next
  fix sep s :: string and i
  assume sep: "sep \<noteq> []" and found: "find_idx sep s = Some i"
  have "find_idx sep t = Some j \<Longrightarrow> j + length sep \<le> length t" for t j
    by (induction t arbitrary: j) (auto dest: prefix_length_le split: if_splits)
  from this [OF found] sep
  show "((sep, drop (i + length sep) s), (sep, s)) \<in> measure (\<lambda>(sep, s). length s)"
    by (cases sep) auto
qed

declare split_pieces.simps [simp del]

section \<open>Exceptions, the outside world and effects\<close>

text \<open>
  The script's handlers tell three kinds of exception apart: instances of
  \<^verbatim>\<open>Exception\<close> (carried with their \<^verbatim>\<open>str(e)\<close>), which \<^verbatim>\<open>except Exception\<close>
  catches; \<^verbatim>\<open>KeyboardInterrupt\<close>, which only the outermost handler of the loop catches;
  and the remaining \<^verbatim>\<open>BaseException\<close>s, of which \<^verbatim>\<open>SystemExit\<close> stands for all,
  which no handler of the script catches.
\<close>

datatype exn = Exception string | KeyboardInterrupt | SystemExit

fun str_exn :: "exn \<Rightarrow> string" where
  "str_exn (Exception msg) = msg"
| "str_exn KeyboardInterrupt = []"
| "str_exn SystemExit = []"

definition split :: "string \<Rightarrow> string \<Rightarrow> exn + string list" where
  "split s sep = (if sep = [] then Inl (Exception ''empty separator'') else Inr (split_pieces sep s))"

text \<open>\<^verbatim>\<open>xs[-1]\<close>, which raises \<^verbatim>\<open>IndexError\<close> on an empty list.\<close>

definition last_item :: "'a list \<Rightarrow> exn + 'a" where
  "last_item xs = (if xs = [] then Inl (Exception ''list index out of range'') else Inr (last xs))"

text \<open>A chat model handle, \<^verbatim>\<open>ChatGroq(model=...)\<close>.\<close>

datatype llm = ChatGroq string

definition llm_groq :: llm where
  "llm_groq = ChatGroq ''llama3-8b-8192''"

text \<open>
  Everything the script does to the outside world is an event: a line printed, a console
  prompt shown by \<^verbatim>\<open>input\<close>, a message sent to a chat model, a question given to the
  SQL chain, a statement run on the database, a program text handed to \<^verbatim>\<open>exec\<close>.
  The trace lists the events so far, oldest first.
\<close>

datatype event =
    Print string
  | Input string
  | LLMInvoke llm string
  | ChainInvoke string
  | DbRun string
  | Exec string

type_synonym trace = "event list"

text \<open>
  The loop is module-level code, so its variables are globals of the script, and
  \<^verbatim>\<open>exec(generated_code, globals())\<close> runs the generated code in that very namespace:
  the code may rebind them or delete them. These are the four that the loop reads again
  after \<^verbatim>\<open>exec\<close> (lines 226-234); \<open>None\<close> is a name that is not bound. A value bound to
  \<^verbatim>\<open>question\<close>, \<^verbatim>\<open>sql_query\<close> or \<^verbatim>\<open>result\<close> is kept as the text that the answer
  template inserts for it.
\<close>

record globals =
  g_question :: "string option"
  g_sql_query :: "string option"
  g_result :: "string option"
  g_llm :: "llm option"

text \<open>
  The outside world answers each call with a value or an exception. Its answer may depend
  on everything that happened before, so the same prompt may get different replies at
  different times. \<^verbatim>\<open>exec\<close> returns or raises (\<open>exec_reply\<close>), and \<open>exec_rebinds\<close> says
  what the four variables hold when the script reads them after \<^verbatim>\<open>exec\<close>, given what
  they held before. What the generated code does while it runs (printing, calling a
  model or the database) is inside the one \<open>Exec\<close> event. Generated code that rebinds
  what the script binds once at start-up (\<^verbatim>\<open>llm_groq\<close>, \<^verbatim>\<open>db\<close>, \<^verbatim>\<open>chain\<close>, the
  templates, the functions, the builtins) or that changes these objects in place
  replaces the program itself and is outside the model.
\<close>

record env =
  console :: "trace \<Rightarrow> exn + string"
  llm_reply :: "llm \<Rightarrow> trace \<Rightarrow> string \<Rightarrow> exn + string"
  chain_reply :: "trace \<Rightarrow> string \<Rightarrow> exn + string"
  db_reply :: "trace \<Rightarrow> string \<Rightarrow> exn + string"
  exec_reply :: "trace \<Rightarrow> string \<Rightarrow> exn + unit"
  exec_rebinds :: "trace \<Rightarrow> globals \<Rightarrow> globals"

type_synonym 'a io = "trace \<Rightarrow> (exn + 'a) \<times> trace"

definition io_return :: "'a \<Rightarrow> 'a io" where
  "io_return x tr = (Inr x, tr)"

definition io_bind :: "'a io \<Rightarrow> ('a \<Rightarrow> 'b io) \<Rightarrow> 'b io" where
  "io_bind m f tr = (case m tr of (Inl e, tr') \<Rightarrow> (Inl e, tr') | (Inr x, tr') \<Rightarrow> f x tr')"

text \<open>
  \<^verbatim>\<open>try: m except Exception as e: ...\<close> seen from the code after it: the value of the
  body, or the caught exception; every other exception goes on propagating.
\<close>

definition catching :: "'a io \<Rightarrow> (exn + 'a) io" where
  "catching m tr =
     (case m tr of
        (Inl (Exception msg), tr') \<Rightarrow> (Inr (Inl (Exception msg)), tr')
      | (Inl e, tr') \<Rightarrow> (Inl e, tr')
      | (Inr x, tr') \<Rightarrow> (Inr (Inr x), tr'))"

definition py_print :: "string \<Rightarrow> unit io" where
  "py_print s tr = (Inr (), tr @ [Print s])"

definition py_input :: "env \<Rightarrow> string \<Rightarrow> string io" where
  "py_input E prompt tr = (console E tr, tr @ [Input prompt])"

text \<open>\<^verbatim>\<open>llm.invoke([HumanMessage(content=prompt)]).content\<close>\<close>

definition invoke :: "env \<Rightarrow> llm \<Rightarrow> string \<Rightarrow> string io" where
  "invoke E l prompt tr = (llm_reply E l tr prompt, tr @ [LLMInvoke l prompt])"

definition chain_invoke :: "env \<Rightarrow> string \<Rightarrow> string io" where
  "chain_invoke E question tr = (chain_reply E tr question, tr @ [ChainInvoke question])"

definition db_run :: "env \<Rightarrow> string \<Rightarrow> string io" where
  "db_run E sql tr = (db_reply E tr sql, tr @ [DbRun sql])"

definition py_exec :: "env \<Rightarrow> string \<Rightarrow> unit io" where
  "py_exec E code tr = (exec_reply E tr code, tr @ [Exec code])"

text \<open>What the four variables hold after \<^verbatim>\<open>exec\<close>; \<open>g\<close> is what they held before.\<close>

definition globals_after_exec :: "env \<Rightarrow> globals \<Rightarrow> globals io" where
  "globals_after_exec E g tr = (Inr (exec_rebinds E tr g), tr)"

text \<open>Evaluating a global name: its value, or \<^verbatim>\<open>NameError\<close> when it is not bound.\<close>

definition read_global :: "string \<Rightarrow> 'a option \<Rightarrow> 'a io" where
  "read_global name v tr =
     (case v of
        None \<Rightarrow> (Inl (Exception (''name '' @ [CHR 0x27] @ name @ [CHR 0x27] @ '' is not defined'')), tr)
      | Some x \<Rightarrow> (Inr x, tr))"

fun is_llm_call :: "event \<Rightarrow> bool" where
  "is_llm_call (LLMInvoke l p) = True"
| "is_llm_call ev = False"

definition llm_calls :: "trace \<Rightarrow> nat" where
  "llm_calls tr = length (filter is_llm_call tr)"

section \<open>The Safety Classifier\<close>

definition sensitive_info_prompt :: "string \<Rightarrow> string" where
  \<open>sensitive_info_prompt question =
     ''\<newline>    The user query might involve sensitive information or modifying the database. The query is: "''
     @ question @
     ''"\<newline>\<newline>    Please check if the query involves:\<newline>''
     @ ''    1. Sensitive information such as passwords, authentication tokens, or security details.\<newline>''
     @ ''    2. SQL commands that can modify the database or tables, such as INSERT, UPDATE, DELETE, DROP.\<newline>\<newline>''
     @ ''    If any of the above applies, respond with a warning message and suggest the user refine their query.\<newline>''
     @ ''    Otherwise, simply return 'safe to proceed'.\<newline>    ''\<close>

definition sensitive_keywords :: "string list" where
  "sensitive_keywords =
     [''security'', ''password'', ''authentication'', ''token'', ''credentials'']"

definition modification_keywords :: "string list" where
  "modification_keywords =
     [''insert'', ''update'', ''delete'', ''drop'', ''alter'', ''truncate'']"

text \<open>
  The \<^verbatim>\<open>for keyword in ...\<close> loop of \<^verbatim>\<open>refine_prompt\<close> (chain.py, lines 69-102):
  the first keyword found in the question ends the function, whatever the model answers.
\<close>

fun refine_loop :: "env \<Rightarrow> llm \<Rightarrow> string \<Rightarrow> string list \<Rightarrow> bool io" where
  "refine_loop E l question [] = io_return True"
| "refine_loop E l question (keyword # rest) =
     (if contains (lower keyword) (lower question)
      then io_bind (py_print
             ''Potential sensitive or modifying operation detected in the question. Refining the query...'')
           (\<lambda>_. io_bind (invoke E l (sensitive_info_prompt question))
           (\<lambda>response.
              if contains ''safe to proceed'' (lower response)
              then io_bind (py_print ''LLM confirmed the query is safe to proceed.'')
                     (\<lambda>_. io_return True)
              else io_bind (py_print (''LLM response: '' @ response))
                     (\<lambda>_. io_return False)))
      else refine_loop E l question rest)"

definition refine_prompt :: "env \<Rightarrow> llm \<Rightarrow> string \<Rightarrow> bool io" where
  "refine_prompt E l question =
     refine_loop E l question (sensitive_keywords @ modification_keywords)"

section \<open>The Visualization Decider\<close>

definition visualization_detection_prompt :: "string \<Rightarrow> string" where
  \<open>visualization_detection_prompt user_input =
     ''\<newline>    Given the following user input, determine if the user is asking for a data visualization (such as a chart, graph, or plot).\<newline>''
     @ ''    Please respond with either 'yes' if visualization is requested, or 'no' if no visualization is requested.\<newline>\<newline>''
     @ ''    User input: "'' @ user_input @ ''"\<newline>''
     @ ''    Visualization requested: ''\<close>

definition check_for_visualization_request :: "env \<Rightarrow> llm \<Rightarrow> string \<Rightarrow> bool io" where
  "check_for_visualization_request E l user_input =
     io_bind (invoke E l (visualization_detection_prompt user_input))
       (\<lambda>response.
          let is_visualization_requested = lower (strip response)
          in if is_visualization_requested = ''yes'' then io_return True else io_return False)"

section \<open>The Code Synthesizer and its executor\<close>

definition code_prompt :: "string \<Rightarrow> string \<Rightarrow> string" where
  \<open>code_prompt sql_query result =
     ''\<newline>    Based on the following SQL query result, generate only the Python code necessary to visualize the data.\<newline>''
     @ ''    Do not include any extra explanations, markdown backticks, or comments.\<newline>    \<newline>''
     @ ''    SQL Query: '' @ sql_query @ ''\<newline>''
     @ ''    SQL Result: '' @ result @ ''\<newline>\<newline>''
     @ ''    The Python code should use libraries like matplotlib and pandas to create a suitable chart (bar, line, scatter, etc.).\<newline>''
     @ ''    The chart should be saved as a PNG file in the current working directory (os.getcwd()) and use uuid for the file name, save the file in a folder named 'seyha' if it does not exist, create one.\<newline>''
     @ ''    Ensure the chart has appropriate labels and a title.\<newline>    ''\<close>

text \<open>
  The cleaning of the model's reply in \<^verbatim>\<open>ask_llm_to_generate_code\<close> (chain.py, lines
  141-148): cut at \<^verbatim>\<open>find("import")\<close>, remove the fence markers, strip.
\<close>

definition clean_code :: "string \<Rightarrow> string" where
  "clean_code content =
     (let cleaned_code = content;
          start_code = find cleaned_code ''import'';
          cleaned_code = slice_from cleaned_code start_code
      in strip (replace (replace cleaned_code ''```python'' []) ''```'' []))"

definition ask_llm_to_generate_code :: "env \<Rightarrow> llm \<Rightarrow> string \<Rightarrow> string \<Rightarrow> string io" where
  "ask_llm_to_generate_code E l sql_query result =
     io_bind (invoke E l (code_prompt sql_query result))
       (\<lambda>response.
          let cleaned_code = clean_code response
          in io_bind (py_print (''cleaned python code:\<newline>'' @ '' '' @ cleaned_code @ '' '' @ '' end''))
               (\<lambda>_. io_return cleaned_code))"

definition execute_generated_code :: "env \<Rightarrow> string \<Rightarrow> unit io" where
  "execute_generated_code E generated_code =
     io_bind (catching
         (io_bind (py_exec E generated_code)
            (\<lambda>_. py_print ''Python code executed successfully.'')))
       (\<lambda>r. case r of
               Inl e \<Rightarrow>
                 io_bind (py_print (''Error executing generated code: '' @ str_exn e))
                   (\<lambda>_. py_print (''Generated code:\<newline>'' @ generated_code))
             | Inr _ \<Rightarrow> io_return ())"

section \<open>The session loop\<close>

text \<open>How an iteration of \<^verbatim>\<open>while True\<close> ends: with the next iteration or with \<^verbatim>\<open>break\<close>.\<close>

datatype ctl = Continue | Break

definition answer_prompt :: "string \<Rightarrow> string \<Rightarrow> string \<Rightarrow> string" where
  "answer_prompt question query result =
     ''Given the following user question, corresponding SQL query, and SQL result, answer the user question.\<newline>\<newline>''
     @ ''    Question: '' @ question @ ''\<newline>''
     @ ''    SQL Query: '' @ query @ ''\<newline>''
     @ ''    SQL Result: '' @ result @ ''\<newline>''
     @ ''    Answer: ''"

text \<open>
  The body of the loop is a chain of \<^verbatim>\<open>try\<close> blocks; each stage below is one block
  together with everything that follows it in the iteration.

  The last block (lines 224-240): the final answer. It reads \<^verbatim>\<open>question\<close>,
  \<^verbatim>\<open>sql_query\<close>, \<^verbatim>\<open>result\<close> and then \<^verbatim>\<open>llm\<close>, all inside its \<^verbatim>\<open>try\<close>; \<open>g\<close> is
  what these variables hold when the block is reached.
\<close>

definition answer_stage :: "env \<Rightarrow> globals \<Rightarrow> ctl io" where
  "answer_stage E g =
     io_bind (catching
         (io_bind (read_global ''question'' (g_question g))
            (\<lambda>question. io_bind (read_global ''sql_query'' (g_sql_query g))
            (\<lambda>sql_query. io_bind (read_global ''result'' (g_result g))
            (\<lambda>result.
               let filled_prompt = answer_prompt question sql_query result
               in io_bind (read_global ''llm'' (g_llm g))
                    (\<lambda>l. io_bind (invoke E l filled_prompt)
                    (\<lambda>final_response. py_print final_response)))))))
       (\<lambda>r. case r of
               Inl e \<Rightarrow>
                 io_bind (py_print
                     (''Warning: An error occurred while generating the final answer: '' @ str_exn e))
                   (\<lambda>_. io_return Continue)
             | Inr _ \<Rightarrow> io_return Continue)"

text \<open>
  The visualization block (lines 208-222), then the final answer. The block hands on
  what \<^verbatim>\<open>question\<close>, \<^verbatim>\<open>sql_query\<close>, \<^verbatim>\<open>result\<close> and \<^verbatim>\<open>llm\<close> hold at its end: what
  they held before when no code was executed, and what the executed code left in them
  otherwise. The final answer is built from these.
\<close>

definition visualization_stage :: "env \<Rightarrow> llm \<Rightarrow> string \<Rightarrow> string \<Rightarrow> string \<Rightarrow> ctl io" where
  "visualization_stage E l question sql_query result =
     (let g = \<lparr>g_question = Some question, g_sql_query = Some sql_query,
                g_result = Some result, g_llm = Some l\<rparr>
      in io_bind (catching
           (io_bind (check_for_visualization_request E llm_groq question)
              (\<lambda>requested.
                 if requested
                 then io_bind (py_print ''Visualization requested. Generating chart...'')
                        (\<lambda>_. io_bind (ask_llm_to_generate_code E llm_groq sql_query result)
                        (\<lambda>generated_code.
                           io_bind (py_print (''Generated Python code:\<newline>'' @ generated_code))
                        (\<lambda>_. io_bind (execute_generated_code E generated_code)
                        (\<lambda>_. globals_after_exec E g))))
                 else io_bind (py_print (''Answer: The SQL result is '' @ result))
                        (\<lambda>_. io_return g))))
         (\<lambda>r. case r of
                 Inl e \<Rightarrow>
                   io_bind (py_print
                       (''Warning: An error occurred during visualization: '' @ str_exn e))
                     (\<lambda>_. io_return Continue)
               | Inr g' \<Rightarrow> answer_stage E g'))"

text \<open>The model-choice prompt (lines 200-206).\<close>

definition choose_llm :: "env \<Rightarrow> llm io" where
  "choose_llm E =
     io_bind (py_input E ''Choose LLM (groq/llama2): '')
       (\<lambda>answer.
          let llm_choice = lower (strip answer)
          in if llm_choice = ''groq'' then io_return llm_groq
             else io_bind (py_print ''Invalid LLM choice. Using default 'groq'.'')
                    (\<lambda>_. io_return llm_groq))"

definition llm_choice_stage :: "env \<Rightarrow> string \<Rightarrow> string \<Rightarrow> string \<Rightarrow> ctl io" where
  "llm_choice_stage E question sql_query result =
     io_bind (choose_llm E) (\<lambda>l. visualization_stage E l question sql_query result)"

text \<open>The database block (lines 193-198).\<close>

definition execution_stage :: "env \<Rightarrow> string \<Rightarrow> string \<Rightarrow> ctl io" where
  "execution_stage E question sql_query =
     io_bind (catching (db_run E sql_query))
       (\<lambda>r. case r of
               Inl e \<Rightarrow>
                 io_bind (py_print
                     (''Warning: An error occurred while executing the SQL query: '' @ str_exn e))
                   (\<lambda>_. io_return Continue)
             | Inr result \<Rightarrow> llm_choice_stage E question sql_query result)"

text \<open>
  The SQL block (lines 183-191). \<^verbatim>\<open>response.split("SQLQuery:")[-1].strip()\<close> is inside the
  \<^verbatim>\<open>try\<close>, so what it raises is caught as well.
\<close>

definition extract_sql :: "string \<Rightarrow> exn + string" where
  "extract_sql response =
     (case split response ''SQLQuery:'' of
        Inl e \<Rightarrow> Inl e
      | Inr parts \<Rightarrow> (case last_item parts of Inl e \<Rightarrow> Inl e | Inr p \<Rightarrow> Inr (strip p)))"

definition translation_stage :: "env \<Rightarrow> string \<Rightarrow> ctl io" where
  "translation_stage E question =
     io_bind (catching
         (io_bind (chain_invoke E question)
            (\<lambda>response tr. (extract_sql response, tr))))
       (\<lambda>r. case r of
               Inl e \<Rightarrow>
                 io_bind (py_print
                     (''Warning: An error occurred while generating the SQL query: '' @ str_exn e))
                   (\<lambda>_. io_return Continue)
             | Inr sql_query \<Rightarrow> execution_stage E question sql_query)"

text \<open>
  The body of the outer \<^verbatim>\<open>try\<close> (chain.py, lines 169-240): one question, from the
  prompt on. Every variable of the script that an iteration reads
  (\<^verbatim>\<open>question\<close>, \<^verbatim>\<open>sql_query\<close>, \<^verbatim>\<open>result\<close>, \<^verbatim>\<open>llm\<close>, \<^verbatim>\<open>generated_code\<close>) is
  assigned in that iteration before it is first read, so whatever an earlier iteration
  or its executed code left in them is overwritten unread: an iteration takes nothing
  from the one before it but the world it runs in.
\<close>

definition iteration :: "env \<Rightarrow> ctl io" where
  "iteration E =
     io_bind (py_input E ''Enter your question (or type 'exit' to quit): '')
       (\<lambda>question.
          if lower question = ''exit''
          then io_bind (py_print ''Exiting program.'') (\<lambda>_. io_return Break)
          else io_bind (refine_prompt E llm_groq question)
                 (\<lambda>proceed.
                    if \<not> proceed then io_return Continue
                    else translation_stage E question))"

text \<open>
  The outer handlers: \<^verbatim>\<open>KeyboardInterrupt\<close> and \<^verbatim>\<open>Exception\<close> are reported and the
  loop goes on; anything else leaves the loop.
\<close>

definition loop_body :: "env \<Rightarrow> ctl io" where
  "loop_body E tr =
     (case iteration E tr of
        (Inl KeyboardInterrupt, tr') \<Rightarrow>
          io_bind (py_print ''\<newline>Program interrupted. Please use 'exit' to quit next time.'')
            (\<lambda>_. io_return Continue) tr'
      | (Inl (Exception msg), tr') \<Rightarrow>
          io_bind (py_print (''Unexpected error occurred: '' @ msg @ ''. Continuing the program...''))
            (\<lambda>_. io_return Continue) tr'
      | (Inl SystemExit, tr') \<Rightarrow> (Inl SystemExit, tr')
      | (Inr c, tr') \<Rightarrow> (Inr c, tr'))"


section \<open>Sample worlds\<close>

text \<open>
  A world that follows a script, for running the definitions on concrete inputs: the
  console hands out the given lines in order and then raises \<^verbatim>\<open>EOFError\<close>, as a closed
  standard input does; the \<open>k\<close>-th call of a chat model gets the \<open>k\<close>-th scripted reply;
  the SQL chain, the database and \<^verbatim>\<open>exec\<close> always answer the same, and executed code
  rebinds nothing.
\<close>

fun is_input :: "event \<Rightarrow> bool" where
  "is_input (Input p) = True"
| "is_input ev = False"

definition nth_or :: "'a list \<Rightarrow> nat \<Rightarrow> 'a \<Rightarrow> 'a" where
  "nth_or xs n d = (if n < length xs then xs ! n else d)"

definition scripted_env ::
  "string list \<Rightarrow> (exn + string) list \<Rightarrow> exn + string \<Rightarrow> exn + string \<Rightarrow> exn + unit \<Rightarrow> env" where
  "scripted_env inputs replies chain db ex =
     \<lparr> console = (\<lambda>tr. nth_or (map Inr inputs) (length (filter is_input tr))
                            (Inl (Exception ''EOF when reading a line''))),
       llm_reply = (\<lambda>l tr p. nth_or replies (llm_calls tr) (Inl (Exception ''no reply''))),
       chain_reply = (\<lambda>tr q. chain),
       db_reply = (\<lambda>tr sql. db),
       exec_reply = (\<lambda>tr code. ex),
       exec_rebinds = (\<lambda>tr g. g) \<rparr>"

text \<open>
  \<open>chart_world\<close>: the user asks for a chart, the decider says \<open>yes\<close>, the model returns
  fenced code, and everything succeeds. \<open>rebinding_world\<close>: the same, but the executed
  code assigns to \<^verbatim>\<open>result\<close> and \<^verbatim>\<open>llm\<close>. \<open>failing_db_world\<close>: the database rejects
  the statement for the first question and answers the second; the user then types
  \<open>exit\<close>.
\<close>

definition chart_world :: env where
  "chart_world =
     scripted_env [''Plot the top cuisines as a bar chart'', ''groq'']
       [Inr ''yes'', Inr ''```python\<newline>import pandas as pd\<newline>```'',
        Inr ''Italian is the most common cuisine.'']
       (Inr ''SQLQuery: SELECT cuisine_type, COUNT(*) FROM restaurants GROUP BY cuisine_type'')
       (Inr ''[(Italian, 25)]'') (Inr ())"

definition rebinding_world :: env where
  "rebinding_world =
     chart_world
       \<lparr> exec_rebinds :=
           (\<lambda>tr g. g\<lparr>g_result := Some ''[(Thai, 1)]'',
                       g_llm := Some (ChatGroq ''mixtral-8x7b'')\<rparr>) \<rparr>"


section \<open>What a computation adds to the trace\<close>


definition emits :: "(event \<Rightarrow> bool) \<Rightarrow> 'a io \<Rightarrow> bool" where
  "emits P m = (\<forall>tr. \<exists>new. snd (m tr) = tr @ new \<and> list_all P new)"


section \<open>Facts about the string operations\<close>

lemma find_idx_None_iff: "find_idx sub s = None \<longleftrightarrow> \<not> sublist sub s"
  by (induction s) (auto simp: sublist_Cons_right)

lemma contains_iff_sublist: "contains sub s \<longleftrightarrow> sublist sub s"
  by (simp add: contains_def find_idx_None_iff)

lemma find_idx_Some:
  "find_idx sub s = Some i \<Longrightarrow>
     i + length sub \<le> length s \<and> prefix sub (drop i s) \<and> (\<forall>j<i. \<not> prefix sub (drop j s))"
proof (induction s arbitrary: i)
  case Nil
  then show ?case by (auto split: if_splits)
next
  case (Cons c cs)
  show ?case
  proof (cases "prefix sub (c # cs)")
    case True
    with Cons.prems show ?thesis by (auto dest: prefix_length_le)
  next
    case False
    with Cons.prems obtain k where k: "find_idx sub cs = Some k" "i = Suc k" by auto
    from Cons.IH [OF k(1)] False k(2) show ?thesis
      by (auto simp: less_Suc_eq_0_disj)
  qed
qed

lemma find_idx_sublist: "sublist sub s \<Longrightarrow> \<exists>i. find_idx sub s = Some i"
  using find_idx_None_iff [of sub s] by (cases "find_idx sub s") auto

lemma strip_single: "strip [c] = (if isspace c then [] else [c])"
  by (simp add: strip_def)

lemma replace_short:
  "length s < length old \<Longrightarrow> replace s old new = s"
proof -
  assume a: "length s < length old"
  then have "old \<noteq> []" by auto
  moreover have "find_idx old s = None"
    using a find_idx_Some [of old s] by (cases "find_idx old s") auto
  ultimately show ?thesis by (simp add: replace.simps [of s])
qed

lemma slice_from_minus_one:
  "slice_from s (- 1) = (if s = [] then [] else [last s])"
proof (cases "s = []")
  case True
  then show ?thesis by (simp add: slice_from_def)
next
  case False
  then have "drop (length s - Suc 0) s = [last s]"
    by (metis One_nat_def append_butlast_last_id append_eq_conv_conj length_butlast)
  moreover have "nat (int (length s) - 1) = length s - Suc 0" by simp
  ultimately show ?thesis using False
    by (simp add: slice_from_def max_def)
qed

lemma clean_code_no_import:
  assumes "\<not> sublist ''import'' reply"
  shows "clean_code reply = (if reply = [] \<or> isspace (last reply) then [] else [last reply])"
proof -
  have f: "find reply ''import'' = - 1"
    using assms by (simp add: find_def find_idx_None_iff [symmetric])
  show ?thesis
    by (simp add: clean_code_def f slice_from_minus_one replace_short strip_single)
       (simp add: strip_def)
qed

lemma find_idx_first_char:
  assumes "find_idx (c # cs) s = Some i"
  shows "i < length s \<and> s ! i = c"
proof -
  from find_idx_Some [OF assms] have le: "i + length (c # cs) \<le> length s"
    and p: "prefix (c # cs) (drop i s)" by auto
  from le have i: "i < length s" by simp
  from p obtain t where "drop i s = c # cs @ t" by (auto simp: prefix_def)
  then have "hd (drop i s) = c" by simp
  with i show ?thesis by (simp add: hd_drop_conv_nth)
qed

lemma replace_keeps_prefix:
  assumes "prefix p s" and "c \<notin> set p"
  shows "prefix p (replace s (c # cs) new)"
proof (cases "find_idx (c # cs) s")
  case None
  with assms show ?thesis by (simp add: replace.simps [of s])
next
  case (Some i)
  from find_idx_first_char [OF Some] have i: "i < length s" "s ! i = c" by auto
  have "length p \<le> i"
  proof (rule ccontr)
    assume "\<not> length p \<le> i"
    then have "i < length p" by simp
    with assms(1) have "s ! i = p ! i" by (auto simp: prefix_def nth_append)
    with \<open>i < length p\<close> i(2) assms(2) show False by (metis nth_mem)
  qed
  with assms(1) have "prefix p (take i s)"
    by (auto simp: prefix_def)
  then show ?thesis using Some
    by (simp add: replace.simps [of s] prefix_def) (metis append.assoc)
qed

lemma replace_replicate_gone:
  assumes n: "0 < n"
  shows "\<not> sublist (replicate n c) (replace s (replicate n c) [])"
proof (induction s "replicate n c" "[] :: string" rule: replace.induct)
  case (1 s)
  let ?old = "replicate n c"
  have ne: "?old \<noteq> []" using n by simp
  show ?case
  proof (cases "find_idx ?old s")
    case None
    then have "replace s ?old [] = s" using ne by (simp add: replace.simps [of s])
    with None show ?thesis by (simp add: find_idx_None_iff)
  next
    case (Some i)
    let ?R = "replace (drop (i + length ?old) s) ?old []"
    from "1.hyps" [OF ne Some] have IH: "\<not> sublist ?old ?R" .
    from find_idx_Some [OF Some] have le: "i + n \<le> length s"
      and p: "prefix ?old (drop i s)" and first: "\<forall>j<i. \<not> prefix ?old (drop j s)" by auto
    have eq: "replace s ?old [] = take i s @ ?R"
      using Some ne by (simp add: replace.simps [of s])
    have no_left: "\<not> sublist ?old (take i s)"
    proof
      assume "sublist ?old (take i s)"
      then obtain a b where ab: "take i s = a @ ?old @ b" by (auto simp: sublist_def)
      then have "length a < i" using n
        by (metis add_lessD1 le nat_le_linear add_diff_cancel_left' append_eq_conv_conj take_all_iff
            length_append length_replicate length_take less_add_same_cancel1 min.absorb2 
            not_add_less1 linorder_not_le trans_less_add1)
      moreover have "s = a @ ?old @ b @ drop i s"
        using ab by (metis append.assoc append_take_drop_id)
      then have "prefix ?old (drop (length a) s)"
        by (metis append_eq_conv_conj prefixI)
      ultimately show False using first by blast
    qed
    have no_straddle: False
      if x: "?old = x1 @ x2" "suffix x1 (take i s)" "prefix x2 ?R" for x1 x2
    proof -
      have x1: "x1 = replicate (length x1) c" and x2: "x2 = replicate (length x2) c"
        using x(1) by (metis append_eq_conv_conj take_replicate length_take length_replicate,
                       metis append_eq_conv_conj drop_replicate length_drop length_replicate)
      have nn: "length x1 + length x2 = n" using x(1)
        by (metis length_append length_replicate)
      show False
      proof (cases "x1 = []")
        case True
        with x have "sublist ?old ?R" by auto
        with IH show False ..
      next
        case False
        from x(2) obtain u where u: "take i s = u @ x1" by (auto simp: suffix_def)
        from p obtain t where t: "drop i s = ?old @ t" by (auto simp: prefix_def)
        have "s = u @ x1 @ ?old @ t"
          using u t by (metis append.assoc append_take_drop_id)
        moreover have "replicate k c @ ?old = ?old @ replicate k c" for k
          by (simp add: replicate_add [symmetric] add.commute)
        from this [of "length x1"] have "x1 @ ?old = ?old @ x1"
          using x1 by simp
        ultimately have "s = u @ ?old @ x1 @ t" by (metis append.assoc)
        then have "prefix ?old (drop (length u) s)"
          by (metis append_eq_conv_conj prefixI)
        moreover have "length u < i" using u False le
          by (metis add_lessD1 length_append length_greater_0_conv length_take less_add_same_cancel1 
              min.absorb2 trans_le_add1 nat_le_linear take_all_iff le_add1 le_trans)
        ultimately show False using first by blast
      qed
    qed
    show ?thesis
      unfolding eq
    proof
      assume "sublist ?old (take i s @ ?R)"
      then consider "sublist ?old (take i s)" | "sublist ?old ?R"
        | x1 x2 where "?old = x1 @ x2" "suffix x1 (take i s)" "prefix x2 ?R"
        unfolding sublist_append by blast
      then show False
        using no_left IH no_straddle by cases blast+
    qed
  qed
qed

lemma strip_sublist: "sublist (strip s) s"
proof -
  have "suffix (dropWhile isspace s) s" by (rule suffix_dropWhile)
  moreover have "prefix (strip s) (dropWhile isspace s)"
    unfolding strip_def
    by (metis suffix_dropWhile suffix_to_prefix rev_rev_ident)
  ultimately show ?thesis
    by (meson prefix_imp_sublist suffix_imp_sublist sublist_order.order_trans)
qed

lemma strip_keeps_absence: "\<not> sublist x s \<Longrightarrow> \<not> sublist x (strip s)"
  using strip_sublist sublist_order.order_trans by blast

lemma strip_last_not_space: "strip s \<noteq> [] \<Longrightarrow> \<not> isspace (last (strip s))"
  unfolding strip_def
  by (metis hd_dropWhile last_rev rev_is_Nil_conv)

lemma strip_keeps_prefix:
  assumes "prefix p s" and "\<forall>c\<in>set p. \<not> isspace c"
  shows "prefix p (strip s)"
proof (cases "p = []")
  case True
  then show ?thesis by simp
next
  case False
  from assms(1) obtain t where s: "s = p @ t" by (auto simp: prefix_def)
  from False assms(2) have hd: "\<not> isspace (hd p)" and lst: "\<not> isspace (last p)" by auto
  from False hd have d1: "dropWhile isspace (p @ t) = p @ t"
    by (cases p) auto
  from False lst have d2: "dropWhile isspace (rev p) = rev p"
    by (cases p rule: rev_cases) auto
  show ?thesis
    unfolding strip_def s d1
    by (auto simp: dropWhile_append d2)
qed

lemma clean_code_with_import:
  assumes "sublist ''import'' reply"
  shows "\<exists>i. find_idx ''import'' reply = Some i \<and>
             clean_code reply = strip (replace (replace (drop i reply) ''```python'' []) ''```'' []) \<and>
             prefix ''import'' (clean_code reply) \<and>
             \<not> sublist ''```'' (clean_code reply) \<and>
             \<not> sublist ''```python'' (clean_code reply) \<and>
             \<not> isspace (hd (clean_code reply)) \<and> \<not> isspace (last (clean_code reply))"
proof -
  from find_idx_sublist [OF assms] obtain i where i: "find_idx ''import'' reply = Some i" ..
  let ?cut = "drop i reply"
  let ?r = "replace (replace ?cut ''```python'' []) ''```'' []"
  have cc: "clean_code reply = strip ?r"
    by (simp add: clean_code_def find_def i slice_from_def)
  from find_idx_Some [OF i] have "prefix ''import'' ?cut" by simp
  then have "prefix ''import'' (replace ?cut ''```python'' [])"
    by (rule replace_keeps_prefix) simp
  then have "prefix ''import'' ?r"
    by (rule replace_keeps_prefix) simp
  then have pre: "prefix ''import'' (strip ?r)"
    by (rule strip_keeps_prefix) (simp add: isspace_def)
  have "''```'' = replicate 3 (CHR 0x60)" by (simp add: numeral_3_eq_3)
  with replace_replicate_gone [of 3 "CHR 0x60" "replace ?cut ''```python'' []"]
  have "\<not> sublist ''```'' ?r" by simp
  then have no3: "\<not> sublist ''```'' (strip ?r)" by (rule strip_keeps_absence)
  have "sublist ''```'' ''```python''" by (simp add: sublist_code prefix_code)
  with no3 have no9: "\<not> sublist ''```python'' (strip ?r)"
    using sublist_order.order_trans by blast
  from pre have ne: "strip ?r \<noteq> []" by auto
  from pre obtain t where "strip ?r = ''import'' @ t" by (auto simp: prefix_def)
  then have "hd (strip ?r) = CHR ''i''" by simp
  then have h: "\<not> isspace (hd (strip ?r))" by (simp add: isspace_def)
  from i cc pre no3 no9 h strip_last_not_space [OF ne] show ?thesis by simp
qed

lemma split_pieces_ne: "split_pieces sep s \<noteq> []"
  by (subst split_pieces.simps) (auto split: option.splits)

lemma split_pieces_absent: "\<not> sublist sep s \<Longrightarrow> split_pieces sep s = [s]"
  by (subst split_pieces.simps) (simp add: find_idx_None_iff [symmetric])

lemma split_pieces_last:
  assumes c: "c \<notin> set cs" and suf: "\<not> sublist (c # cs) suf"
  shows "last (split_pieces (c # cs) (pre @ (c # cs) @ suf)) = suf"
proof (induction "length pre" arbitrary: pre rule: less_induct)
  case less
  let ?sep = "c # cs"
  let ?s = "pre @ ?sep @ suf"
  have "sublist ?sep ?s" by (auto simp: sublist_def)
  from find_idx_sublist [OF this] obtain i where i: "find_idx ?sep ?s = Some i" ..
  from find_idx_Some [OF i] have first: "\<forall>j<i. \<not> prefix ?sep (drop j ?s)" by simp
  have "prefix ?sep (drop (length pre) ?s)" by simp
  with first have le: "i \<le> length pre" by (meson not_le)
  have unfold: "split_pieces ?sep ?s = take i ?s # split_pieces ?sep (drop (i + length ?sep) ?s)"
    using i by (subst split_pieces.simps) simp
  show ?case
  proof (cases "i = length pre")
    case True
    then have "drop (i + length ?sep) ?s = suf" by simp
    with unfold suf show ?thesis by (simp add: split_pieces_absent)
  next
    case False
    with le have lt: "i < length pre" by simp
    have fit: "i + length ?sep \<le> length pre"
    proof (rule ccontr)
      assume "\<not> i + length ?sep \<le> length pre"
      then have far: "length pre - i < length ?sep" by simp
      from find_idx_Some [OF i] obtain t where t: "drop i ?s = ?sep @ t"
        by (auto simp: prefix_def)
      have "?s ! length pre = c" by (simp add: nth_append)
      moreover have "?s ! length pre = drop i ?s ! (length pre - i)"
        using lt by (subst nth_drop) simp_all
      ultimately have at: "(?sep @ t) ! (length pre - i) = c" using t by simp
      from lt obtain k where k: "length pre - i = Suc k" by (cases "length pre - i") auto
      from far k have kl: "k < length cs" by simp
      from at k have "(cs @ t) ! k = c" by simp
      with kl have "cs ! k = c" by (simp add: nth_append)
      with kl show False using c by (metis nth_mem)
    qed
    then have "drop (i + length ?sep) ?s = drop (i + length ?sep) pre @ ?sep @ suf" by simp
    moreover have "length (drop (i + length ?sep) pre) < length pre" using lt by simp
    ultimately have "last (split_pieces ?sep (drop (i + length ?sep) ?s)) = suf"
      using less.hyps by metis
    with unfold show ?thesis by (simp add: split_pieces_ne)
  qed
qed

lemma extract_sql_after_marker:
  assumes "response = pre @ ''SQLQuery:'' @ suf"
    and "\<forall>pre' suf'. response = pre' @ ''SQLQuery:'' @ suf' \<longrightarrow> length pre' \<le> length pre"
  shows "extract_sql response = Inr (strip suf)"
proof -
  have "\<not> sublist ''SQLQuery:'' suf"
  proof
    assume "sublist ''SQLQuery:'' suf"
    then obtain a b where "suf = a @ ''SQLQuery:'' @ b" by (auto simp: sublist_def)
    with assms(1) have "response = (pre @ ''SQLQuery:'' @ a) @ ''SQLQuery:'' @ b" by simp
    with assms(2) have "length (pre @ ''SQLQuery:'' @ a) \<le> length pre" by blast
    then show False by simp
  qed
  with split_pieces_last [of "CHR ''S''" "''QLQuery:''" suf pre]
  have "last (split_pieces ''SQLQuery:'' response) = suf"
    using assms(1) by simp
  then show ?thesis
    by (simp add: extract_sql_def split_def last_item_def split_pieces_ne)
qed

lemma extract_sql_no_marker:
  "\<not> sublist ''SQLQuery:'' response \<Longrightarrow> extract_sql response = Inr (strip response)"
  by (simp add: extract_sql_def split_def last_item_def split_pieces_absent)

section \<open>Running the effects\<close>

lemmas io_defs = io_bind_def io_return_def catching_def py_print_def py_input_def invoke_def
  chain_invoke_def db_run_def py_exec_def

lemma emits_return: "emits P (io_return x)"
  by (simp add: emits_def io_return_def)

lemma emits_bind:
  assumes "emits P m" and "\<And>x. emits P (f x)"
  shows "emits P (io_bind m f)"
proof (unfold emits_def, intro allI)
  fix tr
  from assms(1) obtain n1 where n1: "snd (m tr) = tr @ n1" "list_all P n1"
    by (auto simp: emits_def)
  show "\<exists>new. snd (io_bind m f tr) = tr @ new \<and> list_all P new"
  proof (cases "m tr")
    case (Pair r tr')
    with n1 have tr': "tr' = tr @ n1" by simp
    show ?thesis
    proof (cases r)
      case (Inl e)
      with Pair tr' n1 show ?thesis by (simp add: io_bind_def)
    next
      case (Inr x)
      from assms(2) [of x] obtain n2 where "snd (f x tr') = tr' @ n2" "list_all P n2"
        by (auto simp: emits_def)
      with Pair Inr tr' n1 show ?thesis by (simp add: io_bind_def)
    qed
  qed
qed

lemma emits_catching: "emits P m \<Longrightarrow> emits P (catching m)"
  unfolding emits_def catching_def
  apply (intro allI)
  subgoal for tr
    apply (erule allE [of _ tr])
    apply (cases "m tr")
    apply (auto split: sum.splits exn.splits)
    done
  done

lemma emits_print: "emits P (py_print s) \<longleftrightarrow> P (Print s)"
  by (auto simp: emits_def py_print_def)

lemma emits_input: "emits P (py_input E p) \<longleftrightarrow> P (Input p)"
  by (auto simp: emits_def py_input_def)

lemma emits_invoke: "emits P (invoke E l p) \<longleftrightarrow> P (LLMInvoke l p)"
  by (auto simp: emits_def invoke_def)



lemma emits_exec: "emits P (py_exec E c) \<longleftrightarrow> P (Exec c)"
  by (auto simp: emits_def py_exec_def)

lemma emits_pure: "emits P (\<lambda>tr. (r, tr))"
  by (simp add: emits_def)

lemmas emits_intros = emits_return emits_bind emits_catching emits_pure

lemma emits_if: "emits P a \<Longrightarrow> emits P b \<Longrightarrow> emits P (if c then a else b)"
  by simp

lemma emits_case_sum:
  "(\<And>e. emits P (f e)) \<Longrightarrow> (\<And>x. emits P (g x)) \<Longrightarrow> emits P (case r of Inl e \<Rightarrow> f e | Inr x \<Rightarrow> g x)"
  by (cases r) simp_all

lemma emits_check:
  "P (LLMInvoke l (visualization_detection_prompt q)) \<Longrightarrow> emits P (check_for_visualization_request E l q)"
  unfolding check_for_visualization_request_def Let_def
  by (intro emits_intros emits_if) (simp add: emits_invoke)

lemma emits_ask:
  "P (LLMInvoke l (code_prompt s r)) \<Longrightarrow> (\<And>t. P (Print t)) \<Longrightarrow> emits P (ask_llm_to_generate_code E l s r)"
  unfolding ask_llm_to_generate_code_def Let_def
  by (intro emits_intros) (simp_all add: emits_invoke emits_print)

lemma emits_execute:
  "(\<And>t. P (Print t)) \<Longrightarrow> P (Exec c) \<Longrightarrow> emits P (execute_generated_code E c)"
  unfolding execute_generated_code_def
  by (intro emits_intros emits_case_sum) (simp_all add: emits_exec emits_print)

lemma emits_read_global: "emits P (read_global name v)"
  by (simp add: emits_def read_global_def split: option.splits)

lemma emits_answer:
  "(\<And>ev. P ev) \<Longrightarrow> emits P (answer_stage E g)"
  unfolding answer_stage_def Let_def
  by (intro emits_intros emits_case_sum emits_read_global) (simp_all add: emits_invoke emits_print)

lemma emits_globals_after_exec: "emits P (globals_after_exec E g)"
  by (simp add: emits_def globals_after_exec_def)

lemma emits_visualization:
  assumes "\<And>ev. P ev"
  shows "emits P (visualization_stage E l q s r)"
  unfolding visualization_stage_def Let_def
  by (intro emits_intros emits_case_sum emits_if emits_check emits_ask emits_execute emits_answer
        emits_globals_after_exec)
     (simp_all add: emits_print assms)







section \<open>The Safety Classifier: keyword filter and adjudication\<close>

lemma refine_loop_miss:
  "\<forall>k\<in>set ks. \<not> contains (lower k) (lower q) \<Longrightarrow> refine_loop E l q ks tr = (Inr True, tr)"
  by (induction ks) (simp_all add: io_return_def)

lemma refine_loop_hit:
  assumes "\<exists>k\<in>set ks. contains (lower k) (lower q)"
  shows "refine_loop E l q ks tr =
    (let notice = Print ''Potential sensitive or modifying operation detected in the question. Refining the query...'';
         call = LLMInvoke l (sensitive_info_prompt q)
     in case llm_reply E l (tr @ [notice]) (sensitive_info_prompt q) of
          Inl e \<Rightarrow> (Inl e, tr @ [notice, call])
        | Inr r \<Rightarrow>
            if contains ''safe to proceed'' (lower r)
            then (Inr True, tr @ [notice, call, Print ''LLM confirmed the query is safe to proceed.''])
            else (Inr False, tr @ [notice, call, Print (''LLM response: '' @ r)]))"
  using assms
proof (induction ks)
  case Nil
  then show ?case by simp
next
  case (Cons k ks)
  show ?case
  proof (cases "contains (lower k) (lower q)")
    case True
    then show ?thesis
      by (simp add: io_bind_def io_return_def py_print_def invoke_def Let_def split: sum.splits)
  next
    case False
    with Cons show ?thesis by simp
  qed
qed

text \<open>
  Claim C1. When the question contains one of the eleven keywords as a case-insensitive
  substring, \<open>refine_prompt\<close> sends exactly one message to the chat model. If the model
  replies, the verdict is true exactly when the lower-cased reply contains
  \<open>safe to proceed\<close>; if the call raises, the exception is what \<open>refine_prompt\<close> raises.
\<close>

theorem refine_prompt_keyword_adjudicated:
  assumes "\<exists>k \<in> set [''security'', ''password'', ''authentication'', ''token'', ''credentials'',
                       ''insert'', ''update'', ''delete'', ''drop'', ''alter'', ''truncate''].
             sublist (lower k) (lower question)"
  shows "llm_calls (snd (refine_prompt E l question tr)) = llm_calls tr + 1 \<and>
         (case llm_reply E l
                 (tr @ [Print ''Potential sensitive or modifying operation detected in the question. Refining the query...''])
                 (sensitive_info_prompt question) of
            Inr reply \<Rightarrow>
              fst (refine_prompt E l question tr) = Inr (sublist ''safe to proceed'' (lower reply))
          | Inl e \<Rightarrow> fst (refine_prompt E l question tr) = Inl e)"
proof -
  have "\<exists>k\<in>set (sensitive_keywords @ modification_keywords). contains (lower k) (lower question)"
    using assms by (simp add: sensitive_keywords_def modification_keywords_def contains_iff_sublist)
  from refine_loop_hit [OF this, of E l tr] show ?thesis
    by (simp add: refine_prompt_def llm_calls_def Let_def contains_iff_sublist split: sum.splits)
qed

theorem refine_prompt_keyword_adjudicated_witness:
  "(\<exists>k \<in> set [''security'', ''password'', ''authentication'', ''token'', ''credentials'',
                       ''insert'', ''update'', ''delete'', ''drop'', ''alter'', ''truncate''].
             sublist (lower k) (lower ''please DROP the users table'')) \<and>
   llm_calls (snd (refine_prompt (scripted_env [] [Inr ''Safe to Proceed.''] (Inr []) (Inr []) (Inr ()))
                     llm_groq ''please DROP the users table'' [])) = 1 \<and>
   fst (refine_prompt (scripted_env [] [Inr ''Safe to Proceed.''] (Inr []) (Inr []) (Inr ()))
          llm_groq ''please DROP the users table'' []) = Inr True"
proof -
  have h: "\<exists>k \<in> set [''security'', ''password'', ''authentication'', ''token'', ''credentials'',
                       ''insert'', ''update'', ''delete'', ''drop'', ''alter'', ''truncate''].
             sublist (lower k) (lower ''please DROP the users table'')"
    by code_simp
  have s: "sublist ''safe to proceed'' (lower ''Safe to Proceed.'')" by code_simp
  from refine_prompt_keyword_adjudicated [OF h,
      of "scripted_env [] [Inr ''Safe to Proceed.''] (Inr []) (Inr []) (Inr ())" llm_groq "[]"] h s
  show ?thesis
    by (simp add: scripted_env_def nth_or_def llm_calls_def)
qed

text \<open>
  Claim C2. When the question contains none of the eleven keywords as a case-insensitive
  substring, \<open>refine_prompt\<close> returns true and leaves the trace as it was: no message is
  sent to the chat model and nothing is printed.
\<close>

theorem refine_prompt_fast_path:
  assumes "\<forall>k \<in> set [''security'', ''password'', ''authentication'', ''token'', ''credentials'',
                       ''insert'', ''update'', ''delete'', ''drop'', ''alter'', ''truncate''].
             \<not> sublist (lower k) (lower question)"
  shows "refine_prompt E l question tr = (Inr True, tr)"
proof -
  have "\<forall>k\<in>set (sensitive_keywords @ modification_keywords). \<not> contains (lower k) (lower question)"
    using assms by (simp add: sensitive_keywords_def modification_keywords_def contains_iff_sublist)
  then show ?thesis
    unfolding refine_prompt_def by (rule refine_loop_miss)
qed

theorem refine_prompt_fast_path_witness:
  "\<not> (\<exists>k \<in> set [''security'', ''password'', ''authentication'', ''token'', ''credentials'',
                       ''insert'', ''update'', ''delete'', ''drop'', ''alter'', ''truncate''].
             sublist (lower k) (lower ''What are the top cuisines?'')) \<and>
   refine_prompt (scripted_env [] [] (Inr []) (Inr []) (Inr ())) llm_groq
     ''What are the top cuisines?'' [] = (Inr True, [])"
proof -
  have h: "\<forall>k \<in> set [''security'', ''password'', ''authentication'', ''token'', ''credentials'',
                       ''insert'', ''update'', ''delete'', ''drop'', ''alter'', ''truncate''].
             \<not> sublist (lower k) (lower ''What are the top cuisines?'')"
    by code_simp
  from refine_prompt_fast_path [OF h, of "scripted_env [] [] (Inr []) (Inr []) (Inr ())" llm_groq "[]"] h
  show ?thesis
    by simp
qed

section \<open>The Visualization Decider and the Code Synthesizer\<close>

text \<open>
  Claim C5. When the chat model replies, \<open>check_for_visualization_request\<close> returns true
  exactly when the reply, stripped of surrounding whitespace and lower-cased, is \<open>yes\<close>;
  \<open>no\<close>, \<open>No\<close>, \<open>maybe\<close> and the empty reply give false.
\<close>

theorem check_for_visualization_request_yes_only:
  "check_for_visualization_request E l user_input tr =
     (case llm_reply E l tr (visualization_detection_prompt user_input) of
        Inl e \<Rightarrow> (Inl e, tr @ [LLMInvoke l (visualization_detection_prompt user_input)])
      | Inr reply \<Rightarrow>
          (Inr (lower (strip reply) = ''yes''),
           tr @ [LLMInvoke l (visualization_detection_prompt user_input)]))
   \<and> lower (strip ''yes'') = ''yes'' \<and> lower (strip '' Yes\<newline>'') = ''yes''
   \<and> lower (strip ''no'') \<noteq> ''yes'' \<and> lower (strip ''No'') \<noteq> ''yes''
   \<and> lower (strip ''maybe'') \<noteq> ''yes'' \<and> lower (strip '''') \<noteq> ''yes''"
proof -
  have "check_for_visualization_request E l user_input tr =
     (case llm_reply E l tr (visualization_detection_prompt user_input) of
        Inl e \<Rightarrow> (Inl e, tr @ [LLMInvoke l (visualization_detection_prompt user_input)])
      | Inr reply \<Rightarrow>
          (Inr (lower (strip reply) = ''yes''),
           tr @ [LLMInvoke l (visualization_detection_prompt user_input)]))"
    by (simp add: check_for_visualization_request_def io_defs Let_def split: sum.splits)
  moreover have "lower (strip ''yes'') = ''yes''" by code_simp
  moreover have "lower (strip '' Yes\<newline>'') = ''yes''" by code_simp
  moreover have "lower (strip ''no'') \<noteq> ''yes''" by code_simp
  moreover have "lower (strip ''No'') \<noteq> ''yes''" by code_simp
  moreover have "lower (strip ''maybe'') \<noteq> ''yes''" by code_simp
  moreover have "lower (strip '''') \<noteq> ''yes''" by code_simp
  ultimately show ?thesis by blast
qed

lemma ask_llm_to_generate_code_reply:
  "llm_reply E l tr (code_prompt sql_query result) = Inr reply \<Longrightarrow>
   ask_llm_to_generate_code E l sql_query result tr =
     (Inr (clean_code reply),
      tr @ [LLMInvoke l (code_prompt sql_query result),
            Print (''cleaned python code:\<newline>'' @ '' '' @ clean_code reply @ '' '' @ '' end'')])"
  by (simp add: ask_llm_to_generate_code_def io_defs Let_def)

text \<open>
  What the cleaning achieves when the reply contains \<open>import\<close>: the code returned is the
  reply from the first occurrence of these letters on, with the fence markers replaced by
  nothing and the result stripped. It begins with the letters \<open>import\<close>, contains neither
  marker, and has no whitespace at either end.
\<close>

lemma ask_llm_to_generate_code_from_import:
  assumes "llm_reply E l tr (code_prompt sql_query result) = Inr reply"
    and "sublist ''import'' reply"
  shows "\<exists>i code. fst (ask_llm_to_generate_code E l sql_query result tr) = Inr code \<and>
           i + length ''import'' \<le> length reply \<and>
           prefix ''import'' (drop i reply) \<and> (\<forall>j<i. \<not> prefix ''import'' (drop j reply)) \<and>
           code = strip (replace (replace (drop i reply) ''```python'' []) ''```'' []) \<and>
           prefix ''import'' code \<and>
           \<not> sublist ''```python'' code \<and> \<not> sublist ''```'' code \<and>
           \<not> isspace (hd code) \<and> \<not> isspace (last code)"
proof -
  from clean_code_with_import [OF assms(2)] obtain i where
    i: "find_idx ''import'' reply = Some i" and
    c: "clean_code reply = strip (replace (replace (drop i reply) ''```python'' []) ''```'' [])"
       "prefix ''import'' (clean_code reply)"
       "\<not> sublist ''```'' (clean_code reply)" "\<not> sublist ''```python'' (clean_code reply)"
       "\<not> isspace (hd (clean_code reply))" "\<not> isspace (last (clean_code reply))"
    by blast
  from find_idx_Some [OF i] have f: "i + length ''import'' \<le> length reply"
    "prefix ''import'' (drop i reply)" "\<forall>j<i. \<not> prefix ''import'' (drop j reply)" by blast+
  have "fst (ask_llm_to_generate_code E l sql_query result tr) = Inr (clean_code reply)"
    by (simp add: ask_llm_to_generate_code_reply [OF assms(1)])
  with c f show ?thesis by blast
qed

text \<open>
  Claim C6. The claim ends with "no text precedes the code", and the function's own
  comments say the same: strip any unwanted introduction text before the actual code,
  find the start of the actual code. The cut is made at the first occurrence of the
  letters \<open>import\<close>, and that may lie inside a word of the introduction. For the reply
  below, which announces that the code imports pandas, the returned text begins with
  the prose \<open>imports pandas:\<close> and the code comes after it.
\<close>

theorem introduction_containing_import_is_kept:
  "sublist ''import'' ''This code imports pandas:\<newline>```python\<newline>import pandas as pd\<newline>```'' \<and>
   fst (ask_llm_to_generate_code
          (scripted_env []
             [Inr ''This code imports pandas:\<newline>```python\<newline>import pandas as pd\<newline>```'']
             (Inr []) (Inr []) (Inr ()))
          llm_groq ''SELECT 1'' ''[(1,)]'' [])
     = Inr ''imports pandas:\<newline>\<newline>import pandas as pd''"
proof -
  let ?reply = "''This code imports pandas:\<newline>```python\<newline>import pandas as pd\<newline>```''"
  let ?W = "scripted_env [] [Inr ?reply] (Inr []) (Inr []) (Inr ())"
  have r: "llm_reply ?W llm_groq [] (code_prompt ''SELECT 1'' ''[(1,)]'') = Inr ?reply"
    by (simp add: scripted_env_def nth_or_def llm_calls_def)
  have h: "sublist ''import'' ?reply" by code_simp
  have v: "clean_code ?reply = ''imports pandas:\<newline>\<newline>import pandas as pd''" by code_simp
  from h v show ?thesis
    by (simp add: ask_llm_to_generate_code_reply [OF r])
qed

text \<open>
  Claim C10, as amended. When the reply contains no \<open>import\<close>,
  \<open>ask_llm_to_generate_code\<close> does not fail: it returns the last character of the reply,
  stripped, which is the empty string when the reply is empty or ends in whitespace. The
  result differs from the reply as soon as the reply has two characters.
\<close>

theorem ask_llm_to_generate_code_without_import:
  assumes "llm_reply E l tr (code_prompt sql_query result) = Inr reply"
    and "\<not> sublist ''import'' reply"
  shows "fst (ask_llm_to_generate_code E l sql_query result tr) =
           Inr (if reply = [] \<or> isspace (last reply) then [] else [last reply]) \<and>
         (2 \<le> length reply \<longrightarrow>
            fst (ask_llm_to_generate_code E l sql_query result tr) \<noteq> Inr reply)"
proof -
  have "2 \<le> length reply \<Longrightarrow> reply \<noteq> [] \<and> reply \<noteq> [last reply]"
    by (cases reply) auto
  then show ?thesis
    by (auto simp: ask_llm_to_generate_code_reply [OF assms(1)] clean_code_no_import [OF assms(2)])
qed

theorem ask_llm_to_generate_code_without_import_witness:
  "\<not> sublist ''import'' ''Here is a chart.'' \<and>
   fst (ask_llm_to_generate_code
          (scripted_env [] [Inr ''Here is a chart.''] (Inr []) (Inr []) (Inr ()))
          llm_groq ''SELECT 1'' ''[(1,)]'' []) = Inr ''.''"
proof -
  let ?W = "scripted_env [] [Inr ''Here is a chart.''] (Inr []) (Inr []) (Inr ())"
  have r: "llm_reply ?W llm_groq [] (code_prompt ''SELECT 1'' ''[(1,)]'') = Inr ''Here is a chart.''"
    by (simp add: scripted_env_def nth_or_def llm_calls_def)
  have h: "\<not> sublist ''import'' ''Here is a chart.''" by code_simp
  have s: "\<not> isspace (CHR ''.'')" by code_simp
  from ask_llm_to_generate_code_without_import [OF r h] h s
  show ?thesis by simp
qed

text \<open>
  Claim C10 as stated says the reply is never returned unchanged. A reply of one
  character that is not whitespace is.
\<close>

theorem single_character_reply_returned_unchanged:
  "\<not> sublist ''import'' ''x'' \<and>
   fst (ask_llm_to_generate_code (scripted_env [] [Inr ''x''] (Inr []) (Inr []) (Inr ()))
          llm_groq ''SELECT 1'' ''[(1,)]'' []) = Inr ''x''"
proof -
  let ?W = "scripted_env [] [Inr ''x''] (Inr []) (Inr []) (Inr ())"
  have r: "llm_reply ?W llm_groq [] (code_prompt ''SELECT 1'' ''[(1,)]'') = Inr ''x''"
    by (simp add: scripted_env_def nth_or_def llm_calls_def)
  have h: "\<not> sublist ''import'' ''x''" by code_simp
  have v: "clean_code ''x'' = ''x''" by code_simp
  from h v show ?thesis
    by (simp add: ask_llm_to_generate_code_reply [OF r])
qed

text \<open>
  Claim C9, as amended. \<open>execute_generated_code\<close> catches what \<^verbatim>\<open>exec\<close> raises when
  it is an instance of \<^verbatim>\<open>Exception\<close>: it prints the error and the generated code and
  returns normally. \<^verbatim>\<open>KeyboardInterrupt\<close> and \<^verbatim>\<open>SystemExit\<close> are not caught there
  and leave the function.
\<close>

theorem execute_generated_code_outcomes:
  "execute_generated_code E generated_code tr =
     (case exec_reply E tr generated_code of
        Inr u \<Rightarrow>
          (Inr (), tr @ [Exec generated_code, Print ''Python code executed successfully.''])
      | Inl (Exception msg) \<Rightarrow>
          (Inr (), tr @ [Exec generated_code,
                         Print (''Error executing generated code: '' @ msg),
                         Print (''Generated code:\<newline>'' @ generated_code)])
      | Inl KeyboardInterrupt \<Rightarrow> (Inl KeyboardInterrupt, tr @ [Exec generated_code])
      | Inl SystemExit \<Rightarrow> (Inl SystemExit, tr @ [Exec generated_code]))"
  by (simp add: execute_generated_code_def io_defs split: sum.splits exn.splits)

text \<open>
  Claim C9 as stated says every exception is caught. Generated code that calls
  \<^verbatim>\<open>sys.exit\<close> raises \<^verbatim>\<open>SystemExit\<close>, which leaves \<open>execute_generated_code\<close>.
\<close>

theorem system_exit_escapes_execute_generated_code:
  "execute_generated_code (scripted_env [] [] (Inr []) (Inr []) (Inl SystemExit))
     ''import sys; sys.exit(1)'' [] = (Inl SystemExit, [Exec ''import sys; sys.exit(1)''])"
  by (simp add: execute_generated_code_def io_defs scripted_env_def)

section \<open>The model choice\<close>



lemma emits_choose_llm: "(\<And>t. P (Print t)) \<Longrightarrow> (\<And>t. P (Input t)) \<Longrightarrow> emits P (choose_llm E)"
  unfolding choose_llm_def Let_def
  by (intro emits_intros emits_if) (simp_all add: emits_input emits_print)









section \<open>The SQL handed to the database\<close>

lemma extract_sql_total: "\<exists>sql. extract_sql response = Inr sql"
  by (simp add: extract_sql_def split_def last_item_def split_pieces_ne)

lemma marker_occurrence_is_last:
  assumes c: "c \<notin> set cs" and suf: "\<not> sublist (c # cs) suf"
    and two: "pre @ (c # cs) @ suf = pre' @ (c # cs) @ suf'"
  shows "length pre' \<le> length pre"
proof (rule ccontr)
  assume "\<not> length pre' \<le> length pre"
  then have lt: "length pre < length pre'" by simp
  let ?s = "pre @ (c # cs) @ suf"
  have at: "?s ! length pre' = c" by (subst two) simp
  show False
  proof (cases "length pre + length (c # cs) \<le> length pre'")
    case True
    have "drop (length pre + length (c # cs)) ?s = suf" by simp
    moreover have "drop (length pre + length (c # cs)) (pre' @ (c # cs) @ suf') =
        drop (length pre + length (c # cs)) pre' @ (c # cs) @ suf'"
      using True by simp
    ultimately have "suf = drop (length pre + length (c # cs)) pre' @ (c # cs) @ suf'"
      using two by metis
    then have "sublist (c # cs) suf" by (metis sublist_appendI)
    with suf show False ..
  next
    case False
    from lt obtain k where k: "length pre' - length pre = Suc k"
      by (cases "length pre' - length pre") auto
    with False have kl: "k < length cs" by simp
    from k have "length pre' = length pre + Suc k" by simp
    then have "?s ! length pre' = ((c # cs) @ suf) ! Suc k"
      by (simp add: nth_append)
    with kl have "?s ! length pre' = cs ! k" by (simp add: nth_append)
    with at kl c show False by (metis nth_mem)
  qed
qed

lemma execution_stage_run:
  "execution_stage E question sql_query tr =
     (case db_reply E tr sql_query of
        Inr result \<Rightarrow> llm_choice_stage E question sql_query result (tr @ [DbRun sql_query])
      | Inl (Exception msg) \<Rightarrow>
          (Inr Continue,
           tr @ [DbRun sql_query,
                 Print (''Warning: An error occurred while executing the SQL query: '' @ msg)])
      | Inl KeyboardInterrupt \<Rightarrow> (Inl KeyboardInterrupt, tr @ [DbRun sql_query])
      | Inl SystemExit \<Rightarrow> (Inl SystemExit, tr @ [DbRun sql_query]))"
  by (simp add: execution_stage_def io_defs split: sum.splits exn.splits)

lemma translation_stage_run:
  "chain_reply E tr question = Inr response \<Longrightarrow> extract_sql response = Inr sql_query \<Longrightarrow>
   translation_stage E question tr = execution_stage E question sql_query (tr @ [ChainInvoke question])"
  by (simp add: translation_stage_def io_defs)

lemma emits_llm_choice_stage:
  assumes "\<And>ev. P ev"
  shows "emits P (llm_choice_stage E question sql_query result)"
  unfolding llm_choice_stage_def
  by (intro emits_intros emits_choose_llm emits_visualization) (simp_all add: assms)

lemma execution_stage_starts_with_db:
  "prefix (tr @ [DbRun sql_query]) (snd (execution_stage E question sql_query tr))"
proof -
  have "\<exists>new. snd (llm_choice_stage E question sql_query result (tr @ [DbRun sql_query])) =
          (tr @ [DbRun sql_query]) @ new" for result
    using emits_llm_choice_stage [of "\<lambda>ev. True" E question sql_query result]
    unfolding emits_def by blast
  then have "prefix (tr @ [DbRun sql_query])
      (snd (llm_choice_stage E question sql_query result (tr @ [DbRun sql_query])))" for result
    by (metis prefixI)
  then show ?thesis
    by (simp add: execution_stage_run split: sum.splits exn.splits)
qed

text \<open>
  Claim C4. The SQL taken from the chain's response is the text after the last
  \<open>SQLQuery:\<close>, stripped: when the response is \<open>pre @ SQLQuery: @ suf\<close> and the marker
  does not occur in \<open>suf\<close>, that occurrence is the last one and the SQL is \<open>strip suf\<close>.
  Without a marker the SQL is the whole response, stripped. The extraction never raises,
  and the SQL is what the iteration hands to the database right after the chain call.
\<close>

theorem sql_is_the_text_after_the_last_marker:
  "(response = pre @ ''SQLQuery:'' @ suf \<and> \<not> sublist ''SQLQuery:'' suf \<longrightarrow>
      extract_sql response = Inr (strip suf) \<and>
      (\<forall>pre' suf'. response = pre' @ ''SQLQuery:'' @ suf' \<longrightarrow> length pre' \<le> length pre)) \<and>
   (\<not> sublist ''SQLQuery:'' response \<longrightarrow> extract_sql response = Inr (strip response)) \<and>
   (chain_reply E tr question = Inr response \<longrightarrow>
      (\<exists>sql_query. extract_sql response = Inr sql_query \<and>
         prefix (tr @ [ChainInvoke question, DbRun sql_query])
           (snd (translation_stage E question tr))))"
proof (intro conjI impI)
  assume a: "response = pre @ ''SQLQuery:'' @ suf \<and> \<not> sublist ''SQLQuery:'' suf"
  then have "last (split_pieces ''SQLQuery:'' response) = suf"
    using split_pieces_last [of "CHR ''S''" "''QLQuery:''" suf pre] by simp
  then show "extract_sql response = Inr (strip suf)"
    by (simp add: extract_sql_def split_def last_item_def split_pieces_ne)
  show "\<forall>pre' suf'. response = pre' @ ''SQLQuery:'' @ suf' \<longrightarrow> length pre' \<le> length pre"
  proof (intro allI impI)
    fix pre' suf'
    assume "response = pre' @ ''SQLQuery:'' @ suf'"
    with a have "pre @ ''SQLQuery:'' @ suf = pre' @ ''SQLQuery:'' @ suf'" by simp
    with marker_occurrence_is_last [of "CHR ''S''" "''QLQuery:''" suf pre pre' suf'] a
    show "length pre' \<le> length pre" by simp
  qed
next
  assume "\<not> sublist ''SQLQuery:'' response"
  then show "extract_sql response = Inr (strip response)" by (rule extract_sql_no_marker)
next
  assume c: "chain_reply E tr question = Inr response"
  from extract_sql_total obtain sql_query where s: "extract_sql response = Inr sql_query" ..
  from translation_stage_run [OF c s]
    execution_stage_starts_with_db [of "tr @ [ChainInvoke question]" sql_query E question]
  have "prefix (tr @ [ChainInvoke question, DbRun sql_query]) (snd (translation_stage E question tr))"
    by simp
  with s show "\<exists>sql_query. extract_sql response = Inr sql_query \<and>
         prefix (tr @ [ChainInvoke question, DbRun sql_query])
           (snd (translation_stage E question tr))" by blast
qed

theorem sql_is_the_text_after_the_last_marker_witness:
  "\<not> sublist ''SQLQuery:'' '' SELECT 2 '' \<and>
   extract_sql ''Question: top?\<newline>SQLQuery: SELECT 1\<newline>SQLQuery: SELECT 2 '' = Inr ''SELECT 2'' \<and>
   \<not> sublist ''SQLQuery:'' ''  SELECT 3\<newline>'' \<and>
   extract_sql ''  SELECT 3\<newline>'' = Inr ''SELECT 3'' \<and>
   chain_reply (scripted_env [] [] (Inr ''SQLQuery: SELECT 4'') (Inr ''[(4,)]'') (Inr ())) [] ''four?''
     = Inr ''SQLQuery: SELECT 4'' \<and>
   prefix [ChainInvoke ''four?'', DbRun ''SELECT 4'']
     (snd (translation_stage (scripted_env [] [] (Inr ''SQLQuery: SELECT 4'') (Inr ''[(4,)]'') (Inr ()))
             ''four?'' []))"
proof -
  let ?W = "scripted_env [] [] (Inr ''SQLQuery: SELECT 4'') (Inr ''[(4,)]'') (Inr ())"
  have h1: "\<not> sublist ''SQLQuery:'' '' SELECT 2 ''" by code_simp
  have s1: "strip '' SELECT 2 '' = ''SELECT 2''" by code_simp
  have h2: "\<not> sublist ''SQLQuery:'' ''  SELECT 3\<newline>''" by code_simp
  have s2: "strip ''  SELECT 3\<newline>'' = ''SELECT 3''" by code_simp
  have h3: "chain_reply ?W [] ''four?'' = Inr ''SQLQuery: SELECT 4''"
    by (simp add: scripted_env_def)
  have s3: "extract_sql ''SQLQuery: SELECT 4'' = Inr ''SELECT 4''" by code_simp
  from sql_is_the_text_after_the_last_marker
         [of "''Question: top?\<newline>SQLQuery: SELECT 1\<newline>SQLQuery: SELECT 2 ''"
             "''Question: top?\<newline>SQLQuery: SELECT 1\<newline>''" "'' SELECT 2 ''"]
       h1 s1
  have a: "extract_sql ''Question: top?\<newline>SQLQuery: SELECT 1\<newline>SQLQuery: SELECT 2 '' = Inr ''SELECT 2''"
    by simp
  from sql_is_the_text_after_the_last_marker [of "''  SELECT 3\<newline>''"] h2 s2
  have b: "extract_sql ''  SELECT 3\<newline>'' = Inr ''SELECT 3''" by simp
  from sql_is_the_text_after_the_last_marker [of "''SQLQuery: SELECT 4''" _ _ ?W "[]" "''four?''"] h3 s3
  have c: "prefix [ChainInvoke ''four?'', DbRun ''SELECT 4''] (snd (translation_stage ?W ''four?'' []))"
    by simp
  from h1 a h2 b h3 c show ?thesis by blast
qed

section \<open>Visualization and final answer\<close>

lemma check_for_visualization_request_run:
  "llm_reply E l tr (visualization_detection_prompt user_input) = Inr reply \<Longrightarrow>
   check_for_visualization_request E l user_input tr =
     (Inr (lower (strip reply) = ''yes''),
      tr @ [LLMInvoke l (visualization_detection_prompt user_input)])"
  by (simp add: check_for_visualization_request_def io_defs Let_def)

lemma execute_generated_code_run:
  "execute_generated_code E generated_code tr =
     (case exec_reply E tr generated_code of
        Inr u \<Rightarrow>
          (Inr (), tr @ [Exec generated_code, Print ''Python code executed successfully.''])
      | Inl (Exception msg) \<Rightarrow>
          (Inr (), tr @ [Exec generated_code,
                         Print (''Error executing generated code: '' @ msg),
                         Print (''Generated code:\<newline>'' @ generated_code)])
      | Inl KeyboardInterrupt \<Rightarrow> (Inl KeyboardInterrupt, tr @ [Exec generated_code])
      | Inl SystemExit \<Rightarrow> (Inl SystemExit, tr @ [Exec generated_code]))"
  by (simp add: execute_generated_code_def io_defs split: sum.splits exn.splits)

lemma answer_stage_run:
  assumes "g_question g = Some question" and "g_sql_query g = Some sql_query"
    and "g_result g = Some result" and "g_llm g = Some l"
  shows "answer_stage E g tr =
     (case llm_reply E l tr (answer_prompt question sql_query result) of
        Inr final_response \<Rightarrow>
          (Inr Continue,
           tr @ [LLMInvoke l (answer_prompt question sql_query result), Print final_response])
      | Inl (Exception msg) \<Rightarrow>
          (Inr Continue,
           tr @ [LLMInvoke l (answer_prompt question sql_query result),
                 Print (''Warning: An error occurred while generating the final answer: '' @ msg)])
      | Inl KeyboardInterrupt \<Rightarrow>
          (Inl KeyboardInterrupt, tr @ [LLMInvoke l (answer_prompt question sql_query result)])
      | Inl SystemExit \<Rightarrow>
          (Inl SystemExit, tr @ [LLMInvoke l (answer_prompt question sql_query result)]))"
  by (simp add: answer_stage_def assms read_global_def io_defs Let_def
      split: sum.splits exn.splits)

lemma answer_stage_unbound:
  assumes "g_question g = None \<or> g_sql_query g = None \<or> g_result g = None \<or> g_llm g = None"
  shows "\<exists>name. answer_stage E g tr =
           (Inr Continue,
            tr @ [Print (''Warning: An error occurred while generating the final answer: '' @
                         ''name '' @ [CHR 0x27] @ name @ [CHR 0x27] @ '' is not defined'')])"
proof (cases "g_question g")
  case None
  then have "answer_stage E g tr =
           (Inr Continue,
            tr @ [Print (''Warning: An error occurred while generating the final answer: '' @
                         ''name '' @ [CHR 0x27] @ ''question'' @ [CHR 0x27] @ '' is not defined'')])"
    by (simp add: answer_stage_def read_global_def io_defs)
  then show ?thesis by blast
next
  case q: (Some question)
  show ?thesis
  proof (cases "g_sql_query g")
    case None
    with q have "answer_stage E g tr =
           (Inr Continue,
            tr @ [Print (''Warning: An error occurred while generating the final answer: '' @
                         ''name '' @ [CHR 0x27] @ ''sql_query'' @ [CHR 0x27] @ '' is not defined'')])"
      by (simp add: answer_stage_def read_global_def io_defs)
    then show ?thesis by blast
  next
    case s: (Some sql_query)
    show ?thesis
    proof (cases "g_result g")
      case None
      with q s have "answer_stage E g tr =
           (Inr Continue,
            tr @ [Print (''Warning: An error occurred while generating the final answer: '' @
                         ''name '' @ [CHR 0x27] @ ''result'' @ [CHR 0x27] @ '' is not defined'')])"
        by (simp add: answer_stage_def read_global_def io_defs)
      then show ?thesis by blast
    next
      case r: (Some result)
      with q s assms have "g_llm g = None" by simp
      with q s r have "answer_stage E g tr =
           (Inr Continue,
            tr @ [Print (''Warning: An error occurred while generating the final answer: '' @
                         ''name '' @ [CHR 0x27] @ ''llm'' @ [CHR 0x27] @ '' is not defined'')])"
        by (simp add: answer_stage_def read_global_def io_defs Let_def)
      then show ?thesis by blast
    qed
  qed
qed

lemma visualization_stage_no:
  assumes "llm_reply E llm_groq tr (visualization_detection_prompt question) = Inr verdict"
    and "lower (strip verdict) \<noteq> ''yes''"
  shows "visualization_stage E l question sql_query result tr =
           answer_stage E
             \<lparr>g_question = Some question, g_sql_query = Some sql_query,
              g_result = Some result, g_llm = Some l\<rparr>
             (tr @ [LLMInvoke llm_groq (visualization_detection_prompt question),
                    Print (''Answer: The SQL result is '' @ result)])"
  using assms(2)
  by (simp add: visualization_stage_def check_for_visualization_request_run [OF assms(1)]
      io_bind_def io_return_def catching_def py_print_def Let_def)

lemma visualization_stage_yes:
  assumes "llm_reply E llm_groq tr (visualization_detection_prompt question) = Inr verdict"
    and "lower (strip verdict) = ''yes''"
    and "llm_reply E llm_groq
           (tr @ [LLMInvoke llm_groq (visualization_detection_prompt question),
                  Print ''Visualization requested. Generating chart...''])
           (code_prompt sql_query result) = Inr reply"
  shows "visualization_stage E l question sql_query result tr =
           (let code = clean_code reply;
                before_exec =
                  tr @ [LLMInvoke llm_groq (visualization_detection_prompt question),
                        Print ''Visualization requested. Generating chart...'',
                        LLMInvoke llm_groq (code_prompt sql_query result),
                        Print (''cleaned python code:\<newline>'' @ '' '' @ code @ '' '' @ '' end''),
                        Print (''Generated Python code:\<newline>'' @ code)];
                before = \<lparr>g_question = Some question, g_sql_query = Some sql_query,
                          g_result = Some result, g_llm = Some l\<rparr>
            in case exec_reply E before_exec code of
                 Inr u \<Rightarrow>
                   (let after_exec =
                          before_exec @ [Exec code, Print ''Python code executed successfully.'']
                    in answer_stage E (exec_rebinds E after_exec before) after_exec)
               | Inl (Exception msg) \<Rightarrow>
                   (let after_exec =
                          before_exec @ [Exec code,
                                         Print (''Error executing generated code: '' @ msg),
                                         Print (''Generated code:\<newline>'' @ code)]
                    in answer_stage E (exec_rebinds E after_exec before) after_exec)
               | Inl KeyboardInterrupt \<Rightarrow> (Inl KeyboardInterrupt, before_exec @ [Exec code])
               | Inl SystemExit \<Rightarrow> (Inl SystemExit, before_exec @ [Exec code]))"
  using assms(2)
  by (simp add: visualization_stage_def check_for_visualization_request_run [OF assms(1)]
      ask_llm_to_generate_code_reply [OF assms(3)] execute_generated_code_run
      globals_after_exec_def io_bind_def catching_def py_print_def Let_def
      split: sum.splits exn.splits)

text \<open>
  Claim C3, as amended. Once the decider has replied: when the verdict is not \<open>yes\<close>,
  the raw result is printed and the final-answer step runs, with no code generated or
  executed; when it is \<open>yes\<close> and the model returns code, the code is executed and
  then, unless \<^verbatim>\<open>exec\<close> raised something that is not an \<^verbatim>\<open>Exception\<close>, the
  final-answer step runs as well, on what \<^verbatim>\<open>question\<close>, \<^verbatim>\<open>sql_query\<close>, \<^verbatim>\<open>result\<close> and
  \<^verbatim>\<open>llm\<close> hold after the executed code. The final-answer step sends the answer prompt
  built from these to that model and prints its reply, or the warning when the call
  raises an \<^verbatim>\<open>Exception\<close>; when the executed code has deleted one of the four names it
  only prints the warning. The iteration then ends.
\<close>

theorem visualization_branch_is_followed_by_the_answer:
  assumes "llm_reply E llm_groq tr (visualization_detection_prompt question) = Inr verdict"
  shows
    "(lower (strip verdict) \<noteq> ''yes'' \<longrightarrow>
        visualization_stage E l question sql_query result tr =
          answer_stage E
            \<lparr>g_question = Some question, g_sql_query = Some sql_query,
             g_result = Some result, g_llm = Some l\<rparr>
            (tr @ [LLMInvoke llm_groq (visualization_detection_prompt question),
                   Print (''Answer: The SQL result is '' @ result)])) \<and>
     (lower (strip verdict) = ''yes'' \<and>
      llm_reply E llm_groq
        (tr @ [LLMInvoke llm_groq (visualization_detection_prompt question),
               Print ''Visualization requested. Generating chart...''])
        (code_prompt sql_query result) = Inr reply \<longrightarrow>
        visualization_stage E l question sql_query result tr =
          (let code = clean_code reply;
               before_exec =
                 tr @ [LLMInvoke llm_groq (visualization_detection_prompt question),
                       Print ''Visualization requested. Generating chart...'',
                       LLMInvoke llm_groq (code_prompt sql_query result),
                       Print (''cleaned python code:\<newline>'' @ '' '' @ code @ '' '' @ '' end''),
                       Print (''Generated Python code:\<newline>'' @ code)];
               before = \<lparr>g_question = Some question, g_sql_query = Some sql_query,
                         g_result = Some result, g_llm = Some l\<rparr>
           in case exec_reply E before_exec code of
                Inr u \<Rightarrow>
                  (let after_exec =
                         before_exec @ [Exec code, Print ''Python code executed successfully.'']
                   in answer_stage E (exec_rebinds E after_exec before) after_exec)
              | Inl (Exception msg) \<Rightarrow>
                  (let after_exec =
                         before_exec @ [Exec code,
                                        Print (''Error executing generated code: '' @ msg),
                                        Print (''Generated code:\<newline>'' @ code)]
                   in answer_stage E (exec_rebinds E after_exec before) after_exec)
              | Inl KeyboardInterrupt \<Rightarrow> (Inl KeyboardInterrupt, before_exec @ [Exec code])
              | Inl SystemExit \<Rightarrow> (Inl SystemExit, before_exec @ [Exec code]))) \<and>
     (g_question g = Some question' \<and> g_sql_query g = Some sql_query' \<and>
      g_result g = Some result' \<and> g_llm g = Some l' \<longrightarrow>
        answer_stage E g tr' =
          (case llm_reply E l' tr' (answer_prompt question' sql_query' result') of
             Inr final_response \<Rightarrow>
               (Inr Continue,
                tr' @ [LLMInvoke l' (answer_prompt question' sql_query' result'),
                       Print final_response])
           | Inl (Exception msg) \<Rightarrow>
               (Inr Continue,
                tr' @ [LLMInvoke l' (answer_prompt question' sql_query' result'),
                       Print (''Warning: An error occurred while generating the final answer: '' @ msg)])
           | Inl KeyboardInterrupt \<Rightarrow>
               (Inl KeyboardInterrupt,
                tr' @ [LLMInvoke l' (answer_prompt question' sql_query' result')])
           | Inl SystemExit \<Rightarrow>
               (Inl SystemExit,
                tr' @ [LLMInvoke l' (answer_prompt question' sql_query' result')]))) \<and>
     (g_question g = None \<or> g_sql_query g = None \<or> g_result g = None \<or> g_llm g = None \<longrightarrow>
        (\<exists>name. answer_stage E g tr' =
           (Inr Continue,
            tr' @ [Print (''Warning: An error occurred while generating the final answer: '' @
                          ''name '' @ [CHR 0x27] @ name @ [CHR 0x27] @ '' is not defined'')])))"
  using visualization_stage_no [OF assms, of l sql_query result]
    visualization_stage_yes [OF assms, of sql_query result reply l]
    answer_stage_run [of g question' sql_query' result' l' E tr']
    answer_stage_unbound [of g E tr']
  by blast

theorem visualization_branch_is_followed_by_the_answer_witness:
  "llm_reply rebinding_world llm_groq [] (visualization_detection_prompt ''Plot it'') = Inr ''yes'' \<and>
   lower (strip ''yes'') = ''yes'' \<and>
   llm_reply rebinding_world llm_groq
     [LLMInvoke llm_groq (visualization_detection_prompt ''Plot it''),
      Print ''Visualization requested. Generating chart...'']
     (code_prompt ''SELECT 1'' ''[(1,)]'') = Inr ''```python\<newline>import pandas as pd\<newline>```'' \<and>
   visualization_stage rebinding_world llm_groq ''Plot it'' ''SELECT 1'' ''[(1,)]'' [] =
     (Inr Continue,
      [LLMInvoke llm_groq (visualization_detection_prompt ''Plot it''),
       Print ''Visualization requested. Generating chart...'',
       LLMInvoke llm_groq (code_prompt ''SELECT 1'' ''[(1,)]''),
       Print ''cleaned python code:\<newline> import pandas as pd  end'',
       Print ''Generated Python code:\<newline>import pandas as pd'',
       Exec ''import pandas as pd'',
       Print ''Python code executed successfully.'',
       LLMInvoke (ChatGroq ''mixtral-8x7b'') (answer_prompt ''Plot it'' ''SELECT 1'' ''[(Thai, 1)]''),
       Print ''Italian is the most common cuisine.''])"
proof -
  let ?W = rebinding_world
  let ?after = "[LLMInvoke llm_groq (visualization_detection_prompt ''Plot it''),
        Print ''Visualization requested. Generating chart...'',
        LLMInvoke llm_groq (code_prompt ''SELECT 1'' ''[(1,)]''),
        Print ''cleaned python code:\<newline> import pandas as pd  end'',
        Print ''Generated Python code:\<newline>import pandas as pd'',
        Exec ''import pandas as pd'',
        Print ''Python code executed successfully.'']"
  let ?g = "\<lparr>g_question = Some ''Plot it'', g_sql_query = Some ''SELECT 1'',
             g_result = Some ''[(Thai, 1)]'', g_llm = Some (ChatGroq ''mixtral-8x7b'')\<rparr>"
  have v: "llm_reply ?W llm_groq [] (visualization_detection_prompt ''Plot it'') = Inr ''yes''"
    by (simp add: rebinding_world_def chart_world_def scripted_env_def nth_or_def llm_calls_def)
  have y: "lower (strip ''yes'') = ''yes''" by code_simp
  have r: "llm_reply ?W llm_groq
     [LLMInvoke llm_groq (visualization_detection_prompt ''Plot it''),
      Print ''Visualization requested. Generating chart...'']
     (code_prompt ''SELECT 1'' ''[(1,)]'') = Inr ''```python\<newline>import pandas as pd\<newline>```''"
    by (simp add: rebinding_world_def chart_world_def scripted_env_def nth_or_def llm_calls_def)
  have c: "clean_code ''```python\<newline>import pandas as pd\<newline>```'' = ''import pandas as pd''"
    by code_simp
  have x: "exec_reply ?W tr code = Inr ()" for tr code
    by (simp add: rebinding_world_def chart_world_def scripted_env_def)
  have g: "exec_rebinds ?W tr g =
      g\<lparr>g_result := Some ''[(Thai, 1)]'', g_llm := Some (ChatGroq ''mixtral-8x7b'')\<rparr>" for tr g
    by (simp add: rebinding_world_def)
  have a: "llm_reply ?W (ChatGroq ''mixtral-8x7b'') ?after
      (answer_prompt ''Plot it'' ''SELECT 1'' ''[(Thai, 1)]'') = Inr ''Italian is the most common cuisine.''"
    by (simp add: rebinding_world_def chart_world_def scripted_env_def nth_or_def llm_calls_def)
  note T = visualization_branch_is_followed_by_the_answer [OF v, of llm_groq "''SELECT 1''" "''[(1,)]''"
      "''```python\<newline>import pandas as pd\<newline>```''" ?g "''Plot it''"
      "''SELECT 1''" "''[(Thai, 1)]''" "ChatGroq ''mixtral-8x7b''" ?after]
  from T y r have stage: "visualization_stage ?W llm_groq ''Plot it'' ''SELECT 1'' ''[(1,)]'' [] =
     answer_stage ?W ?g ?after"
    by (simp add: c x g Let_def)
  from T have "answer_stage ?W ?g ?after =
     (Inr Continue,
      ?after @ [LLMInvoke (ChatGroq ''mixtral-8x7b'') (answer_prompt ''Plot it'' ''SELECT 1'' ''[(Thai, 1)]''),
       Print ''Italian is the most common cuisine.''])"
    by (simp add: a)
  with stage have "visualization_stage ?W llm_groq ''Plot it'' ''SELECT 1'' ''[(1,)]'' [] =
     (Inr Continue,
      ?after @ [LLMInvoke (ChatGroq ''mixtral-8x7b'') (answer_prompt ''Plot it'' ''SELECT 1'' ''[(Thai, 1)]''),
       Print ''Italian is the most common cuisine.''])"
    by (simp only:)
  then have run: "visualization_stage ?W llm_groq ''Plot it'' ''SELECT 1'' ''[(1,)]'' [] =
     (Inr Continue,
      [LLMInvoke llm_groq (visualization_detection_prompt ''Plot it''),
       Print ''Visualization requested. Generating chart...'',
       LLMInvoke llm_groq (code_prompt ''SELECT 1'' ''[(1,)]''),
       Print ''cleaned python code:\<newline> import pandas as pd  end'',
       Print ''Generated Python code:\<newline>import pandas as pd'',
       Exec ''import pandas as pd'',
       Print ''Python code executed successfully.'',
       LLMInvoke (ChatGroq ''mixtral-8x7b'') (answer_prompt ''Plot it'' ''SELECT 1'' ''[(Thai, 1)]''),
       Print ''Italian is the most common cuisine.''])"
    by (simp only: append.simps)
  from v y r run show ?thesis by blast
qed

text \<open>
  Claim C3 as stated says one iteration never runs both the Code Synthesizer and the
  Answer Synthesizer. In \<open>chart_world\<close> one iteration executes the generated code and then
  asks the chat model for the final answer.
\<close>

theorem both_synthesizers_run_in_one_iteration:
  "loop_body chart_world [] =
     (Inr Continue,
      [Input ''Enter your question (or type 'exit' to quit): '',
       ChainInvoke ''Plot the top cuisines as a bar chart'',
       DbRun ''SELECT cuisine_type, COUNT(*) FROM restaurants GROUP BY cuisine_type'',
       Input ''Choose LLM (groq/llama2): '',
       LLMInvoke llm_groq (visualization_detection_prompt ''Plot the top cuisines as a bar chart''),
       Print ''Visualization requested. Generating chart...'',
       LLMInvoke llm_groq
         (code_prompt ''SELECT cuisine_type, COUNT(*) FROM restaurants GROUP BY cuisine_type''
            ''[(Italian, 25)]''),
       Print ''cleaned python code:\<newline> import pandas as pd  end'',
       Print ''Generated Python code:\<newline>import pandas as pd'',
       Exec ''import pandas as pd'',
       Print ''Python code executed successfully.'',
       LLMInvoke llm_groq
         (answer_prompt ''Plot the top cuisines as a bar chart''
            ''SELECT cuisine_type, COUNT(*) FROM restaurants GROUP BY cuisine_type''
            ''[(Italian, 25)]''),
       Print ''Italian is the most common cuisine.''])"
  by code_simp









end
